theory Spec2Isabelle
  imports Complex_Main "HOL-Library.Word"
begin

unbundle bit_operations_syntax

section \<open>Python strings\<close>

text \<open>
  A Python \<open>str\<close> is a sequence of Unicode code points. The bullet glyphs of the
  converter lie outside ASCII, so a string is modelled as the list of its code points;
  \<open>ustr\<close> embeds an ASCII literal.
\<close>

type_synonym ustring = "nat list"

definition ustr :: "string \<Rightarrow> ustring" where
  "ustr s = map of_char s"

definition backslash :: nat where
  "backslash = 0x5C"

text \<open>\<open>str.replace(old, new)\<close> for a one-character \<open>old\<close>: every occurrence, left to right.\<close>

definition replace_char :: "nat \<Rightarrow> ustring \<Rightarrow> ustring \<Rightarrow> ustring" where
  "replace_char old new s = concat (map (\<lambda>c. if c = old then new else [c]) s)"

text \<open>\<open>str.isspace\<close> on one code point: the characters Python classifies as whitespace.\<close>

definition is_space :: "nat \<Rightarrow> bool" where
  "is_space c \<longleftrightarrow>
     (0x09 \<le> c \<and> c \<le> 0x0D) \<or> (0x1C \<le> c \<and> c \<le> 0x20) \<or> c = 0x85 \<or> c = 0xA0 \<or>
     c = 0x1680 \<or> (0x2000 \<le> c \<and> c \<le> 0x200A) \<or> c = 0x2028 \<or> c = 0x2029 \<or>
     c = 0x202F \<or> c = 0x205F \<or> c = 0x3000"

definition isspace :: "ustring \<Rightarrow> bool" where
  "isspace s \<longleftrightarrow> s \<noteq> [] \<and> list_all is_space s"

definition strip :: "ustring \<Rightarrow> ustring" where
  "strip s = rev (dropWhile is_space (rev (dropWhile is_space s)))"

definition startswith :: "ustring \<Rightarrow> ustring \<Rightarrow> bool" where
  "startswith s p \<longleftrightarrow> take (length p) s = p"

text \<open>\<open>str(n)\<close> for a natural number, as the f-string of the column count prints it.\<close>

fun digits_acc :: "nat \<Rightarrow> ustring \<Rightarrow> ustring" where
  "digits_acc n acc = (if n < 10 then (48 + n) # acc else digits_acc (n div 10) ((48 + n mod 10) # acc))"

declare digits_acc.simps [simp del]

definition str_nat :: "nat \<Rightarrow> ustring" where
  "str_nat n = digits_acc n []"

section \<open>Spans\<close>

text \<open>
  The dataclass \<open>Span\<close>. Coordinates are Python floats, modelled as reals; the
  fields carry the prefix \<open>span_\<close> so that \<open>x\<close> and \<open>y\<close> stay free for variables.
\<close>

record Span =
  span_text :: ustring
  span_x :: real
  span_y :: real
  span_width :: real
  span_height :: real
  is_bold :: bool
  is_italic :: bool
  is_underlined :: bool

section \<open>Escaping\<close>

definition escape_typst :: "ustring \<Rightarrow> ustring" where
  "escape_typst text0 =
     (if text0 = [] then []
      else
        let text = replace_char backslash [backslash, backslash] text0;
            text = replace_char (of_char CHR ''#'') [backslash, of_char CHR ''#''] text;
            text = replace_char (of_char CHR ''*'') [backslash, of_char CHR ''*''] text;
            text = replace_char (of_char CHR ''_'') [backslash, of_char CHR ''_''] text;
            text = replace_char (of_char CHR ''['') [backslash, of_char CHR ''[''] text;
            text = replace_char (of_char CHR '']'') [backslash, of_char CHR '']''] text;
            text = replace_char (of_char CHR ''<'') [backslash, of_char CHR ''<''] text;
            text = replace_char (of_char CHR ''>'') [backslash, of_char CHR ''>''] text;
            text = replace_char (of_char CHR ''`'') [backslash, of_char CHR ''`''] text;
            text = replace_char (of_char CHR ''$'') [backslash, of_char CHR ''$''] text;
            text = replace_char (of_char CHR ''@'') [backslash, of_char CHR ''@''] text
        in text)"

text \<open>The characters the escaping rule names, in the order of the replacements.\<close>

definition typst_specials :: "nat list" where
  "typst_specials = backslash # map of_char ''#*_[]<>`$@''"

definition escape_one :: "nat \<Rightarrow> ustring" where
  "escape_one c = (if c \<in> set typst_specials then [backslash, c] else [c])"

section \<open>Span formatting\<close>

definition format_span :: "Span \<Rightarrow> ustring" where
  "format_span sp =
     (let text = escape_typst (span_text sp) in
      if is_bold sp \<and> is_underlined sp then ustr ''#underline[#strong['' @ text @ ustr '']]''
      else if is_bold sp then ustr ''#strong['' @ text @ ustr '']''
      else if is_italic sp then ustr ''#emph['' @ text @ ustr '']''
      else if is_underlined sp then ustr ''#underline['' @ text @ ustr '']''
      else text)"

section \<open>The page reader's data\<close>

text \<open>
  What \<open>page.get_text("dict")\<close> and \<open>page.get_drawings()\<close> hand over: blocks of
  lines of raw spans (text, bounding box, font flags) and drawings with a rectangle. The
  rectangle's \<open>height\<close> is the attribute the library exposes and is taken as given.
\<close>

record RawSpan =
  raw_text :: ustring
  raw_bbox :: "real \<times> real \<times> real \<times> real"
  raw_flags :: int

record Block =
  block_type :: int
  block_lines :: "RawSpan list list"

record Rect =
  rect_x0 :: real
  rect_y0 :: real
  rect_x1 :: real
  rect_y1 :: real
  rect_height :: real

record Drawing =
  drawing_type :: string
  drawing_rect :: Rect

record Page =
  page_blocks :: "Block list"
  page_drawings :: "Drawing list"

text \<open>The dictionary \<open>{'y': ..., 'x0': ..., 'x1': ...}\<close> of one underline candidate.\<close>

record Underline =
  ul_y :: real
  ul_x0 :: real
  ul_x1 :: real

section \<open>Extraction\<close>

definition span_of_raw :: "RawSpan \<Rightarrow> Span" where
  "span_of_raw span_data =
     (case raw_bbox span_data of (b0, b1, b2, b3) \<Rightarrow>
        \<lparr> span_text = raw_text span_data,
          span_x = b0,
          span_y = b1,
          span_width = b2 - b0,
          span_height = b3 - b1,
          is_bold = ((raw_flags span_data AND 2 ^ 4) > 0),
          is_italic = ((raw_flags span_data AND 2 ^ 1) > 0),
          is_underlined = False \<rparr>)"

definition extract_all_spans :: "Page \<Rightarrow> Span list" where
  "extract_all_spans page =
     concat (map (\<lambda>block.
       if block_type block \<noteq> 0 then []
       else concat (map (\<lambda>line.
              concat (map (\<lambda>span_data.
                if raw_text span_data = [] \<or> isspace (raw_text span_data) then []
                else [span_of_raw span_data]) line))
            (block_lines block)))
       (page_blocks page))"

definition extract_underlines :: "Page \<Rightarrow> Underline list" where
  "extract_underlines page =
     concat (map (\<lambda>drawing.
       if drawing_type drawing = ''f'' then
         (let rect = drawing_rect drawing in
          if rect_height rect < 5
          then [\<lparr> ul_y = (rect_y0 rect + rect_y1 rect) / 2,
                  ul_x0 = rect_x0 rect,
                  ul_x1 = rect_x1 rect \<rparr>]
          else [])
       else [])
       (page_drawings page))"

section \<open>Underline matching\<close>

text \<open>
  The inner loop of \<open>mark_underlines\<close> for one span: the first underline that is near
  in y and overlaps in x sets the flag and ends the loop (\<open>break\<close>).
\<close>

fun mark_span :: "Underline list \<Rightarrow> Span \<Rightarrow> Span" where
  "mark_span [] sp = sp"
| "mark_span (ul # uls) sp =
     (let y_bottom = span_y sp + span_height sp in
      if \<bar>ul_y ul - y_bottom\<bar> \<le> 5 then
        (let span_x_end = span_x sp + span_width sp in
         if \<not> (ul_x1 ul < span_x sp \<or> ul_x0 ul > span_x_end)
         then sp\<lparr> is_underlined := True \<rparr>
         else mark_span uls sp)
      else mark_span uls sp)"

definition mark_underlines :: "Span list \<Rightarrow> Underline list \<Rightarrow> Span list" where
  "mark_underlines spans underlines = map (mark_span underlines) spans"

text \<open>The matching condition as the specification words it.\<close>

definition ul_matches :: "Span \<Rightarrow> Underline \<Rightarrow> bool" where
  "ul_matches sp ul \<longleftrightarrow>
     \<bar>ul_y ul - (span_y sp + span_height sp)\<bar> \<le> 5 \<and>
     ul_x1 ul \<ge> span_x sp \<and> ul_x0 ul \<le> span_x sp + span_width sp"

section \<open>Clustering\<close>

text \<open>
  One round of the loop over \<open>sorted_pos[1:]\<close>: \<open>clusters[-1][-1]\<close> is the member
  appended last to the current cluster.
\<close>

definition cluster_step :: "real \<Rightarrow> real list list \<Rightarrow> real \<Rightarrow> real list list" where
  "cluster_step tolerance clusters pos =
     (if pos - last (last clusters) \<le> tolerance
      then butlast clusters @ [last clusters @ [pos]]
      else clusters @ [[pos]])"

definition build_clusters :: "real list \<Rightarrow> real \<Rightarrow> real list list" where
  "build_clusters positions tolerance =
     (let sorted_pos = sort (remdups positions)
      in foldl (cluster_step tolerance) [[hd sorted_pos]] (tl sorted_pos))"

definition cluster_positions :: "real list \<Rightarrow> real \<Rightarrow> real list" where
  "cluster_positions positions tolerance =
     (if positions = [] then []
      else map (\<lambda>cluster. sum_list cluster / real (length cluster))
             (build_clusters positions tolerance))"

text \<open>
  The chaining rule as the specification words it: walk the ascending values, keep the
  current cluster while the next value is within the tolerance of the member admitted
  last, close it otherwise.
\<close>

fun chain :: "real \<Rightarrow> real list \<Rightarrow> real list \<Rightarrow> real list list" where
  "chain tolerance current [] = [current]"
| "chain tolerance current (pos # rest) =
     (if pos - last current \<le> tolerance
      then chain tolerance (current @ [pos]) rest
      else current # chain tolerance [pos] rest)"

definition mean :: "real list \<Rightarrow> real" where
  "mean members = sum_list members / real (length members)"

section \<open>Grid assignment\<close>

text \<open>
  The loop of \<open>assign_to_cluster\<close> over \<open>enumerate(clusters)\<close>; \<open>None\<close> is the loop
  running to its end, after which the function returns the fallback 0.
\<close>

fun find_cluster :: "real \<Rightarrow> real list \<Rightarrow> real \<Rightarrow> nat \<Rightarrow> nat option" where
  "find_cluster v [] tolerance i = None"
| "find_cluster v (cluster_center # rest) tolerance i =
     (if \<bar>v - cluster_center\<bar> \<le> tolerance then Some i
      else find_cluster v rest tolerance (Suc i))"

definition assign_to_cluster :: "real \<Rightarrow> real list \<Rightarrow> real \<Rightarrow> nat" where
  "assign_to_cluster v clusters tolerance =
     (case find_cluster v clusters tolerance 0 of Some i \<Rightarrow> i | None \<Rightarrow> 0)"

datatype py_error = IndexError

type_synonym grid = "Span list list list"

text \<open>\<open>grid[row_idx][col_idx].append(span)\<close>; an index out of range raises.\<close>

definition grid_append :: "grid \<Rightarrow> nat \<Rightarrow> nat \<Rightarrow> Span \<Rightarrow> py_error + grid" where
  "grid_append g row_idx col_idx sp =
     (if row_idx < length g \<and> col_idx < length (g ! row_idx)
      then Inr (g[row_idx := (g ! row_idx)[col_idx := g ! row_idx ! col_idx @ [sp]]])
      else Inl IndexError)"

fun assign_spans :: "Span list \<Rightarrow> real list \<Rightarrow> real list \<Rightarrow> grid \<Rightarrow> py_error + grid" where
  "assign_spans [] y_clusters x_clusters g = Inr g"
| "assign_spans (sp # spans) y_clusters x_clusters g =
     (let row_idx = assign_to_cluster (span_y sp) y_clusters 3;
          col_idx = assign_to_cluster (span_x sp) x_clusters 5
      in case grid_append g row_idx col_idx sp of
           Inl e \<Rightarrow> Inl e
         | Inr g' \<Rightarrow> assign_spans spans y_clusters x_clusters g')"

definition x_clusters_of :: "Span list \<Rightarrow> real list" where
  "x_clusters_of spans = cluster_positions (map span_x spans) 5"

definition y_clusters_of :: "Span list \<Rightarrow> real list" where
  "y_clusters_of spans = cluster_positions (map span_y spans) 3"

definition empty_grid :: "Span list \<Rightarrow> grid" where
  "empty_grid spans =
     replicate (length (y_clusters_of spans)) (replicate (length (x_clusters_of spans)) [])"

text \<open>The grid of a page: every span placed, every cell then sorted (stably) by x.\<close>

definition build_grid :: "Span list \<Rightarrow> py_error + grid" where
  "build_grid spans =
     (case assign_spans spans (y_clusters_of spans) (x_clusters_of spans) (empty_grid spans) of
        Inl e \<Rightarrow> Inl e
      | Inr g \<Rightarrow> Inr (map (map (sort_key span_x)) g))"

section \<open>Cell and row rendering\<close>

definition bullet :: nat where
  "bullet = 0x2022"

definition black_circle :: nat where
  "black_circle = 0x25CF"

definition white_bullet :: nat where
  "white_bullet = 0x25E6"

text \<open>The one-character strings the inner loop tests the first span against.\<close>

definition bullet_glyphs :: "ustring list" where
  "bullet_glyphs = [[bullet], [black_circle], [white_bullet]]"

text \<open>
  The branch \<open>if cell:\<close> of the column loop. The outer test looks for the glyph
  U+2022 at the start of the stripped concatenation; the inner loop skips the span of
  index 0 when its stripped text is one of the three glyphs.
\<close>

definition format_cell :: "Span list \<Rightarrow> ustring" where
  "format_cell cell =
     (let text = concat (map span_text cell) in
      if startswith (strip text) [bullet] then
        (let formatted_spans =
               map (\<lambda>(i, sp). format_span sp)
                 (filter (\<lambda>(i, sp). \<not> (i = 0 \<and>
                      strip (span_text sp) \<in> set bullet_glyphs))
                    (enumerate 0 cell))
         in ustr ''- '' @ concat formatted_spans)
      else concat (map format_span cell))"

definition cell_line :: "Span list \<Rightarrow> ustring" where
  "cell_line cell =
     (if cell \<noteq> [] then ustr ''  ['' @ format_cell cell @ ustr ''],''
      else ustr ''  [],'')"

text \<open>One round of the row loop: the lines it appends for one row of the grid.\<close>

definition emit_row :: "nat \<Rightarrow> Span list list \<Rightarrow> ustring list" where
  "emit_row ncols row =
     (let filled_cols = length (filter (\<lambda>cell. cell \<noteq> []) row) in
      if filled_cols = 0 then []
      else [ustr ''#grid('',
            ustr ''  columns: '' @ str_nat ncols @ ustr '','',
            ustr ''  gutter: 1em,'']
           @ map cell_line row
           @ [ustr '')''])"

section \<open>The page driver\<close>

text \<open>
  The body of the loop over the pages, as a function of the page index, the page and
  the lines written so far. The diagnostics printed to standard output are left out.
\<close>

definition process_page :: "nat \<Rightarrow> Page \<Rightarrow> ustring list \<Rightarrow> py_error + ustring list" where
  "process_page page_idx page typst_lines0 =
     (let typst_lines =
            (if page_idx > 0 then typst_lines0 @ [ustr ''#pagebreak()'', []] else typst_lines0);
          spans = mark_underlines (extract_all_spans page) (extract_underlines page)
      in if spans = [] then Inr typst_lines
         else
           (case build_grid spans of
              Inl e \<Rightarrow> Inl e
            | Inr g \<Rightarrow>
                Inr (typst_lines
                     @ concat (map (emit_row (length (x_clusters_of spans))) g)
                     @ [[]])))"

fun process_pages :: "nat \<Rightarrow> Page list \<Rightarrow> ustring list \<Rightarrow> py_error + ustring list" where
  "process_pages page_idx [] typst_lines = Inr typst_lines"
| "process_pages page_idx (page # pages) typst_lines =
     (case process_page page_idx page typst_lines of
        Inl e \<Rightarrow> Inl e
      | Inr typst_lines' \<Rightarrow> process_pages (Suc page_idx) pages typst_lines')"

definition dquote :: ustring where
  "dquote = [0x22]"

definition header_lines :: "ustring \<Rightarrow> ustring list" where
  "header_lines font =
     [ustr ''// Generated from PDF using global grid approach'',
      [],
      ustr ''#set page(paper: '' @ dquote @ ustr ''a4'' @ dquote @ ustr '', margin: (x: 2cm, y: 2cm))'',
      ustr ''#set text(font: '' @ dquote @ font @ dquote @ ustr '', size: 11pt)'',
      ustr ''#set par(leading: 0.65em)'',
      []]"

fun join_lines :: "ustring list \<Rightarrow> ustring" where
  "join_lines [] = []"
| "join_lines [l] = l"
| "join_lines (l # ls) = l @ [10] @ join_lines ls"

text \<open>
  \<open>generate_typst_from_pdf\<close> on the pages of the opened document, with the font read
  from the environment as a parameter: the lines, and the content joined by newlines.
\<close>

definition typst_lines_of_doc :: "ustring \<Rightarrow> Page list \<Rightarrow> py_error + ustring list" where
  "typst_lines_of_doc font doc = process_pages 0 doc (header_lines font)"

definition generate_typst_from_pdf :: "ustring \<Rightarrow> Page list \<Rightarrow> py_error + ustring" where
  "generate_typst_from_pdf font doc =
     (case typst_lines_of_doc font doc of Inl e \<Rightarrow> Inl e | Inr ls \<Rightarrow> Inr (join_lines ls))"

section \<open>Example data\<close>

text \<open>The span with bounding box (x = 0, y = 0, width = 10, height = 10).\<close>

definition ex_span :: Span where
  "ex_span = \<lparr> span_text = ustr ''a'', span_x = 0, span_y = 0, span_width = 10,
      span_height = 10, is_bold = False, is_italic = False, is_underlined = False \<rparr>"

text \<open>A span with the text \<open>a_b\<close> and the given bold, italic and underlined flags.\<close>

definition styled :: "bool \<Rightarrow> bool \<Rightarrow> bool \<Rightarrow> Span" where
  "styled b i u = \<lparr> span_text = ustr ''a_b'', span_x = 0, span_y = 0, span_width = 10,
      span_height = 10, is_bold = b, is_italic = i, is_underlined = u \<rparr>"

text \<open>An unstyled span with the given text at the position (x, y).\<close>

definition plain :: "ustring \<Rightarrow> real \<Rightarrow> real \<Rightarrow> Span" where
  "plain t x y = \<lparr> span_text = t, span_x = x, span_y = y, span_width = 10,
      span_height = 10, is_bold = False, is_italic = False, is_underlined = False \<rparr>"

text \<open>Six spans on one line whose x-coordinates chain from 100 to 120 in steps of 5.\<close>

definition drifting_spans :: "Span list" where
  "drifting_spans = map (\<lambda>x. plain (ustr ''a'') x 0) [0, 100, 105, 110, 115, 120]"

text \<open>Four spans at x in {0, 0, 50, 100} and y in {0, 20}.\<close>

definition table_spans :: "Span list" where
  "table_spans = [plain (ustr ''A'') 0 0, plain (ustr ''B'') 0 20,
                  plain (ustr ''C'') 50 0, plain (ustr ''D'') 100 20]"

text \<open>A page without any block or drawing.\<close>

definition blank_page :: Page where
  "blank_page = \<lparr> page_blocks = [], page_drawings = [] \<rparr>"

text \<open>A page whose four raw spans become \<open>table_spans\<close>.\<close>

definition table_page :: Page where
  "table_page =
     \<lparr> page_blocks = [\<lparr> block_type = 0, block_lines =
          [[\<lparr> raw_text = ustr ''A'', raw_bbox = (0, 0, 10, 10), raw_flags = 0 \<rparr>,
            \<lparr> raw_text = ustr ''B'', raw_bbox = (0, 20, 10, 30), raw_flags = 0 \<rparr>],
           [\<lparr> raw_text = ustr ''C'', raw_bbox = (50, 0, 60, 10), raw_flags = 0 \<rparr>,
            \<lparr> raw_text = ustr ''D'', raw_bbox = (100, 20, 110, 30), raw_flags = 0 \<rparr>]] \<rparr>],
       page_drawings = [] \<rparr>"

section \<open>Lines of a page, named\<close>

text \<open>The page-break marker and the blank line after it, written for every page but the first.\<close>

definition pagebreak_lines :: "nat \<Rightarrow> ustring list" where
  "pagebreak_lines page_idx = (if page_idx > 0 then [ustr ''#pagebreak()'', []] else [])"

text \<open>The grid block of one row: three opening lines, one line per cell, the closing line.\<close>

definition grid_block :: "nat \<Rightarrow> Span list list \<Rightarrow> ustring list" where
  "grid_block ncols row =
     [ustr ''#grid('', ustr ''  columns: '' @ str_nat ncols @ ustr '','', ustr ''  gutter: 1em,'']
     @ map cell_line row @ [ustr '')'']"

section \<open>Shape of a grid\<close>

text \<open>A grid has the shape (rows, columns) when it has that many rows of that many cells.\<close>

definition grid_shape :: "nat \<Rightarrow> nat \<Rightarrow> grid \<Rightarrow> bool" where
  "grid_shape nrows ncols g \<longleftrightarrow> length g = nrows \<and> list_all (\<lambda>row. length row = ncols) g"

section \<open>Escaping is one simultaneous pass\<close>

lemma replace_char_Nil: "replace_char a n [] = []"
  by (simp add: replace_char_def)

lemma replace_char_Cons:
  "replace_char a n (c # s) = (if c = a then n else [c]) @ replace_char a n s"
  by (simp add: replace_char_def)

lemma replace_char_append:
  "replace_char a n (s @ t) = replace_char a n s @ replace_char a n t"
  by (simp add: replace_char_def)

lemma escape_typst_Cons: "escape_typst (c # s) = escape_one c @ escape_typst s"
  by (cases "s = []")
     (simp_all add: escape_typst_def escape_one_def typst_specials_def backslash_def
       replace_char_Cons replace_char_Nil replace_char_append Let_def)

lemma escape_typst_map: "escape_typst s = concat (map escape_one s)"
  by (induction s) (simp_all add: escape_typst_Cons, simp add: escape_typst_def)

lemma escape_typst_foldl:
  "escape_typst s = foldl (\<lambda>t c. replace_char c [backslash, c] t) s typst_specials"
  by (simp add: escape_typst_def typst_specials_def Let_def replace_char_Nil)

text \<open>
  Claim C7. \<open>escape_typst\<close> runs the eleven replacements in the order backslash, then
  \<open>#\<close>, \<open>*\<close>, \<open>_\<close>, \<open>[\<close>, \<open>]\<close>, \<open><\<close>, \<open>>\<close>, backquote, \<open>$\<close>, \<open>@\<close>, and the result is
  the input with each of these characters preceded by one backslash and every other
  character kept: a backslash that a replacement inserted is never escaped again. The text
  \<open>a#b*c_d\<close> becomes \<open>a\#b\*c\_d\<close>, and a backslash followed by \<open>#\<close> becomes three
  backslashes followed by \<open>#\<close>.
\<close>

theorem escape_typst_single_pass:
  "escape_typst s = foldl (\<lambda>t c. replace_char c [backslash, c] t) s typst_specials
   \<and> escape_typst s = concat (map escape_one s)
   \<and> escape_typst (ustr ''a#b*c_d'') =
       ustr [CHR ''a'', CHR 0x5C, CHR ''#'', CHR ''b'', CHR 0x5C, CHR ''*'', CHR ''c'',
             CHR 0x5C, CHR ''_'', CHR ''d'']
   \<and> escape_typst (ustr [CHR 0x5C, CHR ''#'']) = ustr [CHR 0x5C, CHR 0x5C, CHR 0x5C, CHR ''#'']"
proof (intro conjI)
  show "escape_typst s = foldl (\<lambda>t c. replace_char c [backslash, c] t) s typst_specials"
    by (rule escape_typst_foldl)
  show "escape_typst s = concat (map escape_one s)"
    by (rule escape_typst_map)
  show "escape_typst (ustr ''a#b*c_d'') =
       ustr [CHR ''a'', CHR 0x5C, CHR ''#'', CHR ''b'', CHR 0x5C, CHR ''*'', CHR ''c'',
             CHR 0x5C, CHR ''_'', CHR ''d'']"
    by (simp add: escape_typst_map escape_one_def typst_specials_def backslash_def ustr_def)
  show "escape_typst (ustr [CHR 0x5C, CHR ''#'']) = ustr [CHR 0x5C, CHR 0x5C, CHR 0x5C, CHR ''#'']"
    by (simp add: escape_typst_map escape_one_def typst_specials_def backslash_def ustr_def)
qed

section \<open>Underline matching\<close>

lemma mark_span_char:
  "mark_span uls sp =
     (if \<exists>ul\<in>set uls. ul_matches sp ul then sp\<lparr> is_underlined := True \<rparr> else sp)"
  by (induction uls) (auto simp add: ul_matches_def Let_def)

text \<open>
  Claim C6. \<open>mark_underlines\<close> sets \<open>is_underlined\<close> on a span exactly when some
  underline has its midpoint within 5 of the span's bottom edge \<open>y + height\<close> and
  satisfies \<open>x1 \<ge> span.x\<close> and \<open>x0 \<le> span.x + width\<close>, and changes nothing else. The
  first such underline in source order decides: whatever follows it in the list has no
  influence on the result. A span that no underline matches is returned as it was. The
  span with bounding box (0, 0, 10, 10) is marked by an underline at midpoint 10.2 with
  extent [2, 8], and not by one at midpoint 20.
\<close>

theorem mark_underlines_first_match:
  "mark_underlines spans uls =
     map (\<lambda>sp. if \<exists>ul\<in>set uls. ul_matches sp ul then sp\<lparr> is_underlined := True \<rparr> else sp)
       spans
   \<and> (\<not> is_underlined sp \<longrightarrow>
        (is_underlined (mark_span uls sp) \<longleftrightarrow> (\<exists>ul\<in>set uls. ul_matches sp ul)))
   \<and> ((\<forall>u\<in>set pre. \<not> ul_matches sp u) \<and> ul_matches sp ul \<longrightarrow>
        mark_span (pre @ ul # post) sp = mark_span [ul] sp
        \<and> mark_span [ul] sp = sp\<lparr> is_underlined := True \<rparr>)
   \<and> ((\<forall>u\<in>set uls. \<not> ul_matches sp u) \<longrightarrow> mark_span uls sp = sp)
   \<and> is_underlined (mark_span [\<lparr> ul_y = 10.2, ul_x0 = 2, ul_x1 = 8 \<rparr>] ex_span)
   \<and> \<not> is_underlined (mark_span [\<lparr> ul_y = 20, ul_x0 = 2, ul_x1 = 8 \<rparr>] ex_span)"
proof (intro conjI)
  show "mark_underlines spans uls =
     map (\<lambda>sp. if \<exists>ul\<in>set uls. ul_matches sp ul then sp\<lparr> is_underlined := True \<rparr> else sp)
       spans"
    by (simp add: mark_underlines_def mark_span_char)
  show "\<not> is_underlined sp \<longrightarrow>
        (is_underlined (mark_span uls sp) \<longleftrightarrow> (\<exists>ul\<in>set uls. ul_matches sp ul))"
    by (simp add: mark_span_char)
  show "(\<forall>u\<in>set pre. \<not> ul_matches sp u) \<and> ul_matches sp ul \<longrightarrow>
        mark_span (pre @ ul # post) sp = mark_span [ul] sp
        \<and> mark_span [ul] sp = sp\<lparr> is_underlined := True \<rparr>"
    by (auto simp add: mark_span_char)
  show "(\<forall>u\<in>set uls. \<not> ul_matches sp u) \<longrightarrow> mark_span uls sp = sp"
    by (simp add: mark_span_char)
  show "is_underlined (mark_span [\<lparr> ul_y = 10.2, ul_x0 = 2, ul_x1 = 8 \<rparr>] ex_span)"
    by (simp add: mark_span_char ex_span_def ul_matches_def)
  show "\<not> is_underlined (mark_span [\<lparr> ul_y = 20, ul_x0 = 2, ul_x1 = 8 \<rparr>] ex_span)"
    by (simp add: mark_span_char ex_span_def ul_matches_def)
qed

theorem mark_underlines_first_match_witness:
  "mark_span [\<lparr> ul_y = 20, ul_x0 = 2, ul_x1 = 8 \<rparr>, \<lparr> ul_y = 10.2, ul_x0 = 2, ul_x1 = 8 \<rparr>,
              \<lparr> ul_y = 11, ul_x0 = 0, ul_x1 = 1 \<rparr>] ex_span
     = ex_span\<lparr> is_underlined := True \<rparr>
   \<and> mark_span [\<lparr> ul_y = 20, ul_x0 = 2, ul_x1 = 8 \<rparr>] ex_span = ex_span"
  using mark_underlines_first_match
          [where sp = ex_span and uls = "[\<lparr> ul_y = 20, ul_x0 = 2, ul_x1 = 8 \<rparr>]"
             and pre = "[\<lparr> ul_y = 20, ul_x0 = 2, ul_x1 = 8 \<rparr>]"
             and ul = "\<lparr> ul_y = 10.2, ul_x0 = 2, ul_x1 = 8 \<rparr>"
             and post = "[\<lparr> ul_y = 11, ul_x0 = 0, ul_x1 = 1 \<rparr>]"]
  by (simp add: ul_matches_def ex_span_def)

section \<open>Style precedence\<close>

text \<open>
  Claim C9. \<open>format_span\<close> resolves a style combination by the order of its branches:
  bold and underlined, then bold, then italic, then underlined. An italic, underlined,
  non-bold span gets the emphasis wrap alone, without the underline wrap. A bold and
  italic span is formatted as the same span without the italic flag: the strong wrap
  (inside the underline wrap when the span is underlined as well), never the emphasis
  wrap.
\<close>

theorem format_span_precedence:
  "(is_italic sp \<and> is_underlined sp \<and> \<not> is_bold sp \<longrightarrow>
      format_span sp = ustr ''#emph['' @ escape_typst (span_text sp) @ ustr '']'')
   \<and> (is_bold sp \<and> is_italic sp \<longrightarrow>
      format_span sp = format_span (sp\<lparr> is_italic := False \<rparr>)
      \<and> format_span sp =
          (if is_underlined sp
           then ustr ''#underline[#strong['' @ escape_typst (span_text sp) @ ustr '']]''
           else ustr ''#strong['' @ escape_typst (span_text sp) @ ustr '']''))
   \<and> (is_bold sp \<and> is_underlined sp \<longrightarrow>
      format_span sp = ustr ''#underline[#strong['' @ escape_typst (span_text sp) @ ustr '']]'')
   \<and> (is_bold sp \<and> \<not> is_underlined sp \<longrightarrow>
      format_span sp = ustr ''#strong['' @ escape_typst (span_text sp) @ ustr '']'')
   \<and> (\<not> is_bold sp \<and> is_italic sp \<longrightarrow>
      format_span sp = ustr ''#emph['' @ escape_typst (span_text sp) @ ustr '']'')
   \<and> (\<not> is_bold sp \<and> \<not> is_italic sp \<and> is_underlined sp \<longrightarrow>
      format_span sp = ustr ''#underline['' @ escape_typst (span_text sp) @ ustr '']'')
   \<and> (\<not> is_bold sp \<and> \<not> is_italic sp \<and> \<not> is_underlined sp \<longrightarrow>
      format_span sp = escape_typst (span_text sp))"
  by (simp add: format_span_def Let_def)

theorem format_span_precedence_witness:
  "format_span (styled False True True) = ustr ''#emph[a'' @ [backslash] @ ustr ''_b]''
   \<and> format_span (styled True True False) = ustr ''#strong[a'' @ [backslash] @ ustr ''_b]''
   \<and> format_span (styled True True True)
       = ustr ''#underline[#strong[a'' @ [backslash] @ ustr ''_b]]''
   \<and> format_span (styled False False True) = ustr ''#underline[a'' @ [backslash] @ ustr ''_b]''
   \<and> format_span (styled False False False) = ustr ''a'' @ [backslash] @ ustr ''_b''"
  using format_span_precedence [of "styled False True True"]
        format_span_precedence [of "styled True True False"]
        format_span_precedence [of "styled True True True"]
        format_span_precedence [of "styled False False True"]
        format_span_precedence [of "styled False False False"]
  by (simp add: styled_def escape_typst_map escape_one_def typst_specials_def backslash_def
        ustr_def format_span_def)

section \<open>Chaining clusters\<close>

lemma foldl_cluster_step:
  "foldl (cluster_step tol) (done @ [cur]) rest = done @ chain tol cur rest"
proof (induction rest arbitrary: "done" cur)
  case Nil
  show ?case by simp
next
  case (Cons pos rest)
  show ?case
  proof (cases "pos - last cur \<le> tol")
    case True
    then have "cluster_step tol (done @ [cur]) pos = done @ [cur @ [pos]]"
      by (simp add: cluster_step_def)
    with True Cons.IH [of "done" "cur @ [pos]"] show ?thesis by simp
  next
    case False
    then have "cluster_step tol (done @ [cur]) pos = (done @ [cur]) @ [[pos]]"
      by (simp add: cluster_step_def)
    with False Cons.IH [of "done @ [cur]" "[pos]"] show ?thesis by simp
  qed
qed

lemma build_clusters_chain:
  "build_clusters positions tol =
     chain tol [hd (sort (remdups positions))] (tl (sort (remdups positions)))"
  using foldl_cluster_step [of tol "[]"] by (simp add: build_clusters_def Let_def)

lemma chain_not_Nil: "chain tol cur rest \<noteq> []"
  by (induction rest arbitrary: cur) auto

lemma concat_chain: "concat (chain tol cur rest) = cur @ rest"
  by (induction rest arbitrary: cur) auto

lemma chain_groups_nonempty:
  "cur \<noteq> [] \<Longrightarrow> g \<in> set (chain tol cur rest) \<Longrightarrow> g \<noteq> []"
  by (induction rest arbitrary: cur) (auto split: if_splits)

lemma chain_groups_close:
  "successively (\<lambda>a b. b - a \<le> tol) cur \<Longrightarrow> g \<in> set (chain tol cur rest) \<Longrightarrow>
   successively (\<lambda>a b. b - a \<le> tol) g"
proof (induction rest arbitrary: cur)
  case Nil
  then show ?case by simp
next
  case (Cons pos rest)
  show ?case
  proof (cases "pos - last cur \<le> tol")
    case True
    with Cons.prems(1) have "successively (\<lambda>a b. b - a \<le> tol) (cur @ [pos])"
      by (simp add: successively_append_iff)
    with True Cons.prems(2) Cons.IH [of "cur @ [pos]"] show ?thesis by simp
  next
    case False
    with Cons.prems Cons.IH [of "[pos]"] show ?thesis by auto
  qed
qed

lemma hd_chain: "cur \<noteq> [] \<Longrightarrow> hd (hd (chain tol cur rest)) = hd cur"
  by (induction rest arbitrary: cur) auto

lemma chain_groups_apart:
  "cur \<noteq> [] \<Longrightarrow> successively (\<lambda>g h. hd h - last g > tol) (chain tol cur rest)"
proof (induction rest arbitrary: cur)
  case Nil
  show ?case by simp
next
  case (Cons pos rest)
  show ?case
  proof (cases "pos - last cur \<le> tol")
    case True
    with Cons.IH [of "cur @ [pos]"] show ?thesis by simp
  next
    case False
    have "hd (hd (chain tol [pos] rest)) = pos" by (simp add: hd_chain)
    with False Cons.IH [of "[pos]"] chain_not_Nil [of tol "[pos]" rest]
    show ?thesis by (simp add: successively_Cons)
  qed
qed

lemma sum_list_upper: "\<forall>x\<in>set g. x \<le> (m::real) \<Longrightarrow> sum_list g \<le> real (length g) * m"
proof (induction g)
  case Nil
  show ?case by simp
next
  case (Cons a g)
  then have "a \<le> m" and "sum_list g \<le> real (length g) * m" by simp_all
  then show ?case by (simp add: algebra_simps)
qed

lemma sum_list_lower: "\<forall>x\<in>set g. (m::real) \<le> x \<Longrightarrow> real (length g) * m \<le> sum_list g"
proof (induction g)
  case Nil
  show ?case by simp
next
  case (Cons a g)
  then have "m \<le> a" and "real (length g) * m \<le> sum_list g" by simp_all
  then show ?case by (simp add: algebra_simps)
qed

lemma sorted_le_last: "sorted g \<Longrightarrow> x \<in> set g \<Longrightarrow> x \<le> last (g::real list)"
  by (induction g) auto

lemma mean_le_last:
  assumes "sorted g" "g \<noteq> []"
  shows "mean g \<le> last g"
proof -
  have "\<forall>x\<in>set g. x \<le> last g"
    using assms(1) by (simp add: sorted_le_last)
  then have "sum_list g \<le> real (length g) * last g" by (rule sum_list_upper)
  moreover have "0 < real (length g)" using assms(2) by simp
  ultimately show ?thesis
    by (simp add: mean_def pos_divide_le_eq mult.commute)
qed

lemma hd_le_mean:
  assumes "sorted g" "g \<noteq> []"
  shows "hd g \<le> mean g"
proof -
  have "\<forall>x\<in>set g. hd g \<le> x"
    using assms by (cases g) auto
  then have "real (length g) * hd g \<le> sum_list g" by (rule sum_list_lower)
  moreover have "0 < real (length g)" using assms(2) by simp
  ultimately show ?thesis
    by (simp add: mean_def pos_le_divide_eq mult.commute)
qed

lemma means_apart:
  assumes "\<forall>g\<in>set gs. g \<noteq> []" "sorted_wrt (<) (concat gs)"
    and "successively (\<lambda>g h. hd h - last g > tol) gs"
  shows "successively (\<lambda>a b. a < b \<and> b - a > tol) (map mean gs)"
  using assms
proof (induction gs rule: induct_list012)
  case 1
  show ?case by simp
next
  case (2 g)
  show ?case by simp
next
  case (3 g h gs)
  from "3.prems" have ne: "g \<noteq> []" "h \<noteq> []" by simp_all
  from "3.prems"(2) have sg: "sorted g" and sh: "sorted h"
    by (simp_all add: sorted_wrt_append strict_sorted_iff)
  from "3.prems"(2) ne have lt: "last g < hd h"
    by (simp add: sorted_wrt_append)
  from "3.prems"(3) have gap: "hd h - last g > tol" by simp
  have "mean g \<le> last g" using sg ne by (simp add: mean_le_last)
  moreover have "hd h \<le> mean h" using sh ne by (simp add: hd_le_mean)
  ultimately have "mean g < mean h \<and> mean h - mean g > tol"
    using lt gap by linarith
  moreover have "successively (\<lambda>a b. a < b \<and> b - a > tol) (map mean (h # gs))"
    using "3.prems" by (intro "3.IH"(2)) (simp_all add: sorted_wrt_append)
  ultimately show ?case by simp
qed

lemma sorted_unique: "sorted_wrt (<) (sort (remdups (ps::real list)))"
  by (simp add: strict_sorted_iff)

lemma sorted_unique_not_Nil: "ps \<noteq> [] \<Longrightarrow> sort (remdups (ps::real list)) \<noteq> []"
  by (metis set_empty set_remdups set_sort)

lemma concat_build_clusters:
  "ps \<noteq> [] \<Longrightarrow> concat (build_clusters ps tol) = sort (remdups ps)"
  using sorted_unique_not_Nil [of ps] by (simp add: build_clusters_chain concat_chain)

lemma cluster_positions_mean:
  "cluster_positions ps tol = (if ps = [] then [] else map mean (build_clusters ps tol))"
  by (simp add: cluster_positions_def mean_def)

lemma cluster_positions_apart:
  "successively (\<lambda>a b. a < b \<and> b - a > tol) (cluster_positions ps tol)"
proof (cases "ps = []")
  case True
  then show ?thesis by (simp add: cluster_positions_def)
next
  case False
  let ?gs = "build_clusters ps tol"
  have "\<forall>g\<in>set ?gs. g \<noteq> []"
    by (auto simp add: build_clusters_chain dest: chain_groups_nonempty [rotated])
  moreover have "sorted_wrt (<) (concat ?gs)"
    using False by (simp add: concat_build_clusters sorted_unique)
  moreover have "successively (\<lambda>g h. hd h - last g > tol) ?gs"
    by (simp add: build_clusters_chain chain_groups_apart)
  ultimately have "successively (\<lambda>a b. a < b \<and> b - a > tol) (map mean ?gs)"
    by (rule means_apart)
  with False show ?thesis by (simp add: cluster_positions_mean)
qed

lemma chain_singletons:
  "successively (\<lambda>a b. b - a > tol) (c # rest) \<Longrightarrow> chain tol [c] rest = map (\<lambda>x. [x]) (c # rest)"
  by (induction rest arbitrary: c) auto

lemma cluster_positions_fixed:
  assumes "successively (\<lambda>a b. a < b \<and> b - a > tol) cs"
  shows "cluster_positions cs tol = cs"
proof (cases cs)
  case Nil
  then show ?thesis by (simp add: cluster_positions_def)
next
  case (Cons c rest)
  have "successively (<) cs" using assms by (rule successively_mono) simp
  then have "sorted_wrt (<) cs" by (simp add: successively_conv_sorted_wrt)
  then have "sorted cs" "distinct cs" by (simp_all add: strict_sorted_iff)
  then have sp: "sort (remdups cs) = cs" by (simp add: sorted_sort_id)
  have "successively (\<lambda>a b. b - a > tol) (c # rest)"
    using assms unfolding Cons by (rule successively_mono) simp
  then have "chain tol [c] rest = map (\<lambda>x. [x]) (c # rest)" by (rule chain_singletons)
  then have "build_clusters cs tol = map (\<lambda>x. [x]) cs"
    using sp Cons by (simp add: build_clusters_chain)
  then show ?thesis using Cons by (simp add: cluster_positions_def comp_def)
qed

text \<open>
  Claim C5. For every list of coordinates and every tolerance, the centers that
  \<open>cluster_positions\<close> returns are strictly ascending, any two adjacent centers are
  more than the tolerance apart, and clustering the centers again with the same tolerance
  returns them unchanged. Coordinates are reals here; rounding of floats is outside the
  model.
\<close>

theorem cluster_positions_fixed_point:
  "sorted_wrt (<) (cluster_positions ps tol)
   \<and> successively (\<lambda>a b. b - a > tol) (cluster_positions ps tol)
   \<and> cluster_positions (cluster_positions ps tol) tol = cluster_positions ps tol"
proof (intro conjI)
  have ap: "successively (\<lambda>a b. a < b \<and> b - a > tol) (cluster_positions ps tol)"
    by (rule cluster_positions_apart)
  have "successively (<) (cluster_positions ps tol)" using ap by (rule successively_mono) simp
  then show "sorted_wrt (<) (cluster_positions ps tol)" by (simp add: successively_conv_sorted_wrt)
  show "successively (\<lambda>a b. b - a > tol) (cluster_positions ps tol)"
    using ap by (rule successively_mono) simp
  show "cluster_positions (cluster_positions ps tol) tol = cluster_positions ps tol"
    using ap by (rule cluster_positions_fixed)
qed

lemma build_clusters_close:
  "g \<in> set (build_clusters ps tol) \<Longrightarrow> successively (\<lambda>a b. b - a \<le> tol) g"
  using chain_groups_close [of tol "[hd (sort (remdups ps))]" g "tl (sort (remdups ps))"]
  by (simp add: build_clusters_chain)

text \<open>
  Claim C4. \<open>cluster_positions\<close> chains: its clusters are the result of walking the
  sorted unique values and keeping the current cluster exactly while the next value is
  within the tolerance of the member admitted last. So the clusters, in order, make up
  the sorted unique values; inside a cluster every value is within the tolerance of its
  predecessor; the first value of a cluster is more than the tolerance above the last
  value of the cluster before it; and each center is the arithmetic mean of its cluster.
  Clustering [10, 12, 15, 30, 31, 9] with tolerance 5 gives the centers [11.5, 30.5].
\<close>

theorem cluster_positions_chaining:
  "(ps \<noteq> [] \<longrightarrow>
      build_clusters ps tol = chain tol [hd (sort (remdups ps))] (tl (sort (remdups ps)))
      \<and> concat (build_clusters ps tol) = sort (remdups ps)
      \<and> (\<forall>g\<in>set (build_clusters ps tol). g \<noteq> [] \<and> successively (\<lambda>a b. b - a \<le> tol) g)
      \<and> successively (\<lambda>g h. hd h - last g > tol) (build_clusters ps tol)
      \<and> cluster_positions ps tol = map mean (build_clusters ps tol))
   \<and> cluster_positions [] tol = []
   \<and> build_clusters [10, 12, 15, 30, 31, 9] 5 = [[9, 10, 12, 15], [30, 31]]
   \<and> cluster_positions [10, 12, 15, 30, 31, 9] 5 = [11.5, 30.5]"
proof (intro conjI impI ballI)
  show "build_clusters ps tol = chain tol [hd (sort (remdups ps))] (tl (sort (remdups ps)))"
    by (rule build_clusters_chain)
  show "concat (build_clusters ps tol) = sort (remdups ps)" if "ps \<noteq> []"
    using that by (rule concat_build_clusters)
  show "g \<noteq> []" if "g \<in> set (build_clusters ps tol)" for g
    using that by (auto simp add: build_clusters_chain dest: chain_groups_nonempty [rotated])
  show "successively (\<lambda>a b. b - a \<le> tol) g" if "g \<in> set (build_clusters ps tol)" for g
    using that by (rule build_clusters_close)
  show "successively (\<lambda>g h. hd h - last g > tol) (build_clusters ps tol)"
    by (simp add: build_clusters_chain chain_groups_apart)
  show "cluster_positions ps tol = map mean (build_clusters ps tol)" if "ps \<noteq> []"
    using that by (simp add: cluster_positions_mean)
  show "cluster_positions [] tol = []" by (simp add: cluster_positions_def)
  show b: "build_clusters [10, 12, 15, 30, 31, 9] 5 = [[9, 10, 12, 15], [30, 31]]"
    by (simp add: build_clusters_chain)
  show "cluster_positions [10, 12, 15, 30, 31, 9] 5 = [11.5, 30.5]"
    by (simp add: cluster_positions_def b)
qed

theorem cluster_positions_chaining_witness:
  "concat (build_clusters [10, 12, 15, 30, 31, 9] 5) = [9, 10, 12, 15, 30, 31]
   \<and> successively (\<lambda>g h. hd h - last g > 5) (build_clusters [10, 12, 15, 30, 31, 9] 5)
   \<and> cluster_positions [10, 12, 15, 30, 31, 9] 5 = map mean [[9, 10, 12, 15], [30, 31]]"
  using cluster_positions_chaining [of "[10, 12, 15, 30, 31, 9]" 5] by simp

section \<open>Grid assignment stays in bounds\<close>

lemma find_cluster_bound:
  "find_cluster v cs tol i = Some j \<Longrightarrow> i \<le> j \<and> j < i + length cs"
  by (induction cs arbitrary: i) (force split: if_splits)+

lemma assign_to_cluster_bound:
  "cs \<noteq> [] \<Longrightarrow> assign_to_cluster v cs tol < length cs"
  by (auto simp add: assign_to_cluster_def split: option.splits dest: find_cluster_bound)

lemma cluster_positions_not_Nil: "ps \<noteq> [] \<Longrightarrow> cluster_positions ps tol \<noteq> []"
  by (simp add: cluster_positions_def build_clusters_chain chain_not_Nil)

lemma grid_append_shape:
  assumes "grid_shape nrows ncols g" "row_idx < nrows" "col_idx < ncols"
  shows "\<exists>g'. grid_append g row_idx col_idx sp = Inr g' \<and> grid_shape nrows ncols g'"
proof -
  from assms have len: "row_idx < length g" "col_idx < length (g ! row_idx)"
    by (auto simp add: grid_shape_def list_all_length)
  let ?g' = "g[row_idx := (g ! row_idx)[col_idx := g ! row_idx ! col_idx @ [sp]]]"
  have "grid_append g row_idx col_idx sp = Inr ?g'" using len by (simp add: grid_append_def)
  moreover have "grid_shape nrows ncols ?g'"
    using assms(1) len by (auto simp add: grid_shape_def list_all_length nth_list_update)
  ultimately show ?thesis by blast
qed

lemma assign_spans_shape:
  assumes "y_clusters \<noteq> []" "x_clusters \<noteq> []"
  shows "grid_shape (length y_clusters) (length x_clusters) g \<Longrightarrow>
    \<exists>g'. assign_spans spans y_clusters x_clusters g = Inr g'
         \<and> grid_shape (length y_clusters) (length x_clusters) g'"
proof (induction spans arbitrary: g)
  case Nil
  then show ?case by simp
next
  case (Cons sp spans)
  let ?r = "assign_to_cluster (span_y sp) y_clusters 3"
  let ?c = "assign_to_cluster (span_x sp) x_clusters 5"
  have "?r < length y_clusters" "?c < length x_clusters"
    using assms by (simp_all add: assign_to_cluster_bound)
  with Cons.prems obtain g' where g': "grid_append g ?r ?c sp = Inr g'"
      "grid_shape (length y_clusters) (length x_clusters) g'"
    using grid_append_shape by blast
  from Cons.IH [OF g'(2)] g'(1) show ?case by (simp add: Let_def)
qed

lemma empty_grid_shape:
  "grid_shape (length (y_clusters_of spans)) (length (x_clusters_of spans)) (empty_grid spans)"
  by (simp add: grid_shape_def empty_grid_def list_all_length)

lemma build_grid_shape:
  assumes "spans \<noteq> []"
  shows "\<exists>g. build_grid spans = Inr g
     \<and> grid_shape (length (y_clusters_of spans)) (length (x_clusters_of spans)) g"
proof -
  have "y_clusters_of spans \<noteq> []" "x_clusters_of spans \<noteq> []"
    using assms by (simp_all add: y_clusters_of_def x_clusters_of_def cluster_positions_not_Nil)
  from assign_spans_shape [OF this empty_grid_shape, of spans]
  obtain g where g: "assign_spans spans (y_clusters_of spans) (x_clusters_of spans) (empty_grid spans) = Inr g"
     "grid_shape (length (y_clusters_of spans)) (length (x_clusters_of spans)) g" by blast
  then have "build_grid spans = Inr (map (map (sort_key span_x)) g)" by (simp add: build_grid_def)
  moreover have "grid_shape (length (y_clusters_of spans)) (length (x_clusters_of spans)) (map (map (sort_key span_x)) g)"
    using g(2) by (simp add: grid_shape_def list_all_length)
  ultimately show ?thesis by blast
qed

lemma drifting_centers: "cluster_positions [0, 100, 105, 110, 115, 120] 5 = [0, 110]"
  by (simp add: cluster_positions_def build_clusters_chain)

lemma drifting_no_match: "find_cluster 100 [0, 110] 5 0 = None" by simp

lemma drifting_x_clusters: "x_clusters_of drifting_spans = [0, 110]"
  by (simp add: x_clusters_of_def drifting_spans_def plain_def drifting_centers)
lemma drifting_y_clusters: "y_clusters_of drifting_spans = [0]"
  by (simp add: y_clusters_of_def drifting_spans_def plain_def cluster_positions_def build_clusters_chain)

lemma drifting_grid: "build_grid drifting_spans =
   Inr [[map (\<lambda>x. plain (ustr ''a'') x 0) [0, 100, 120], map (\<lambda>x. plain (ustr ''a'') x 0) [105, 110, 115]]]"
  apply (simp add: build_grid_def empty_grid_def drifting_x_clusters drifting_y_clusters)
  apply (simp add: drifting_spans_def plain_def assign_to_cluster_def grid_append_def)
  done

text \<open>
  Claim C10. For every value and every non-empty list of cluster centers,
  \<open>assign_to_cluster\<close> returns an index below the length of the list. Hence, for a
  page with at least one span, both cluster lists are non-empty, the row and column index
  of any span lie inside the grid of that page, and building the grid never raises
  \<open>IndexError\<close>: it returns a grid with one row per y-cluster and one cell per
  x-cluster in every row.
\<close>

theorem assign_to_cluster_in_bounds:
  "(clusters \<noteq> [] \<longrightarrow> assign_to_cluster v clusters tol < length clusters)
   \<and> (spans \<noteq> [] \<longrightarrow>
        assign_to_cluster (span_y sp) (y_clusters_of spans) 3 < length (y_clusters_of spans)
        \<and> assign_to_cluster (span_x sp) (x_clusters_of spans) 5 < length (x_clusters_of spans)
        \<and> grid_shape (length (y_clusters_of spans)) (length (x_clusters_of spans)) (empty_grid spans)
        \<and> (\<exists>g. build_grid spans = Inr g
               \<and> grid_shape (length (y_clusters_of spans)) (length (x_clusters_of spans)) g))"
proof (intro conjI impI)
  show "assign_to_cluster v clusters tol < length clusters" if "clusters \<noteq> []"
    using that by (rule assign_to_cluster_bound)
  assume ne: "spans \<noteq> []"
  then have "y_clusters_of spans \<noteq> []" "x_clusters_of spans \<noteq> []"
    by (simp_all add: y_clusters_of_def x_clusters_of_def cluster_positions_not_Nil)
  then show "assign_to_cluster (span_y sp) (y_clusters_of spans) 3 < length (y_clusters_of spans)"
    and "assign_to_cluster (span_x sp) (x_clusters_of spans) 5 < length (x_clusters_of spans)"
    by (simp_all add: assign_to_cluster_bound)
  show "grid_shape (length (y_clusters_of spans)) (length (x_clusters_of spans)) (empty_grid spans)"
    by (rule empty_grid_shape)
  show "\<exists>g. build_grid spans = Inr g
               \<and> grid_shape (length (y_clusters_of spans)) (length (x_clusters_of spans)) g"
    using ne by (rule build_grid_shape)
qed

theorem assign_to_cluster_in_bounds_witness:
  "[0, 110] \<noteq> ([] :: real list) \<and> assign_to_cluster 100 [0, 110] 5 < length [0, 110 :: real]
   \<and> drifting_spans \<noteq> []
   \<and> (\<exists>g. build_grid drifting_spans = Inr g \<and> grid_shape 1 2 g)"
proof -
  have ne: "drifting_spans \<noteq> []" by (simp add: drifting_spans_def)
  show ?thesis
    using ne assign_to_cluster_in_bounds [where clusters = "[0, 110]" and v = 100 and tol = 5
                    and spans = drifting_spans and sp = "plain (ustr ''a'') 100 0"]
    by (simp add: drifting_x_clusters drifting_y_clusters numeral_2_eq_2)
qed

text \<open>
  Claim C1, at a failing input. Six spans on one line with x = 0, 100, 105, 110, 115, 120:
  the values 100 to 120 chain into one cluster with center 110, so the x-clusters are
  [0, 110]. The coordinate 100 comes from the population the clusters were built from,
  yet no center is within 5 of it: the scan ends without a match, \<open>assign_to_cluster\<close>
  returns the fallback 0, and the spans at x = 100 and x = 120 land in the column of the
  span at x = 0.
\<close>

theorem assign_to_cluster_fallback_taken:
  "100 \<in> set (map span_x drifting_spans)
   \<and> x_clusters_of drifting_spans = [0, 110]
   \<and> find_cluster 100 (x_clusters_of drifting_spans) 5 0 = None
   \<and> assign_to_cluster 100 (x_clusters_of drifting_spans) 5 = 0
   \<and> build_grid drifting_spans =
       Inr [[map (\<lambda>x. plain (ustr ''a'') x 0) [0, 100, 120],
             map (\<lambda>x. plain (ustr ''a'') x 0) [105, 110, 115]]]"
  by (simp add: drifting_x_clusters drifting_grid assign_to_cluster_def) (simp add: drifting_spans_def plain_def)

section \<open>Bullet cells\<close>






lemmas cell_eval = format_cell_def plain_def strip_def is_space_def bullet_def black_circle_def
  white_bullet_def bullet_glyphs_def startswith_def ustr_def Let_def format_span_def
  escape_typst_map escape_one_def typst_specials_def backslash_def

lemma format_cell_bullet_item: "format_cell [plain [bullet] 0 0, plain (ustr '' Item one'') 5 0] = ustr ''-  Item one''"
  by (simp add: cell_eval)

lemma format_cell_bullet_inside: "format_cell [plain (bullet # ustr '' Item'') 0 0] = ustr ''- '' @ bullet # ustr '' Item''"
  by (simp add: cell_eval)

lemma format_cell_no_bullet: "format_cell [plain (ustr ''Item'') 0 0, plain (ustr '' two'') 5 0] = ustr ''Item two''"
  by (simp add: cell_eval)

text \<open>A cell that begins with the glyph U+25CF is rendered unmodified.\<close>

lemma format_cell_black_circle: "format_cell [plain [black_circle] 0 0, plain (ustr '' Item one'') 5 0] = black_circle # ustr '' Item one''"
  by (simp add: cell_eval)



section \<open>Empty pages\<close>

lemma mark_underlines_Nil_iff: "mark_underlines spans uls = [] \<longleftrightarrow> spans = []"
  by (simp add: mark_underlines_def)

lemma process_page_empty:
  "extract_all_spans page = [] \<Longrightarrow>
   process_page page_idx page ls = Inr (ls @ pagebreak_lines page_idx)"
  by (simp add: process_page_def pagebreak_lines_def mark_underlines_def)

lemma process_page_local:
  "process_page page_idx page ls =
     (case process_page page_idx page [] of Inl e \<Rightarrow> Inl e | Inr out \<Rightarrow> Inr (ls @ out))"
  by (simp add: process_page_def Let_def split: sum.splits)

text \<open>
  Claim C3, as amended. A page that yields no span appends no grid block and no line of
  content: all it appends is the page-break marker and the blank line after it when it is
  not the first page, and nothing when it is the first. The pages after it are processed
  with the indices they have anyway, and the lines any page appends depend on its own
  index and content only, not on the lines written before it.
\<close>

theorem empty_page_appends_only_pagebreak:
  "(extract_all_spans page = [] \<longrightarrow>
      process_page page_idx page ls = Inr (ls @ pagebreak_lines page_idx)
      \<and> process_pages page_idx (page # pages) ls
          = process_pages (Suc page_idx) pages (ls @ pagebreak_lines page_idx))
   \<and> process_page page_idx other ls =
       (case process_page page_idx other [] of Inl e \<Rightarrow> Inl e | Inr out \<Rightarrow> Inr (ls @ out))"
  using process_page_local [of page_idx other ls] by (simp add: process_page_empty)

lemma blank_no_spans: "extract_all_spans blank_page = []"
  by (simp add: extract_all_spans_def blank_page_def)

text \<open>
  Claim C3 as stated fails. An empty page at index 1 appends two lines, the page break
  and a blank line.
\<close>

theorem empty_page_appends_lines:
  "extract_all_spans blank_page = []
   \<and> process_page 1 blank_page [] = Inr [ustr ''#pagebreak()'', []]
   \<and> process_page 1 blank_page [] \<noteq> Inr []"
  using process_page_empty [OF blank_no_spans, of 1 "[]"]
  by (simp add: blank_no_spans pagebreak_lines_def)

theorem empty_page_appends_only_pagebreak_witness:
  "extract_all_spans blank_page = []
   \<and> process_page 0 blank_page [ustr ''x''] = Inr [ustr ''x'']
   \<and> process_pages 0 [blank_page, blank_page] [ustr ''x'']
       = Inr [ustr ''x'', ustr ''#pagebreak()'', []]"
proof -
  have e: "extract_all_spans blank_page = []" by (rule blank_no_spans)
  note first = empty_page_appends_only_pagebreak [where page = blank_page and page_idx = 0 and ls = "[ustr ''x'']"
                     and pages = "[blank_page]" and other = blank_page,
                   THEN conjunct1, THEN mp, OF e]
  note second = empty_page_appends_only_pagebreak [where page = blank_page and page_idx = "Suc 0" and ls = "[ustr ''x'']"
                      and pages = "[]" and other = blank_page,
                    THEN conjunct1, THEN mp, OF e]
  from first second show ?thesis by (simp add: e pagebreak_lines_def)
qed

section \<open>Rows of a page\<close>

lemma emit_row_char:
  "emit_row ncols row = (if list_all (\<lambda>cell. cell = []) row then [] else grid_block ncols row)"
  by (auto simp add: emit_row_def grid_block_def Let_def list_all_iff filter_empty_conv)

lemma cell_line_char:
  "cell_line [] = ustr ''  [],''"
  "cell \<noteq> [] \<Longrightarrow> cell_line cell = ustr ''  ['' @ format_cell cell @ ustr ''],''"
  by (simp_all add: cell_line_def)

lemma process_page_rows:
  assumes "mark_underlines (extract_all_spans page) (extract_underlines page) = spans"
    and "build_grid spans = Inr g" and "spans \<noteq> []"
  shows "process_page page_idx page ls =
     Inr (ls @ pagebreak_lines page_idx
          @ concat (map (emit_row (length (x_clusters_of spans))) g) @ [[]])"
  using assms by (simp add: process_page_def pagebreak_lines_def Let_def)

lemma page_rows_general:
  "mark_underlines (extract_all_spans page) (extract_underlines page) = spans \<and> spans \<noteq> [] \<longrightarrow>
     (\<exists>g. build_grid spans = Inr g
        \<and> length g = length (y_clusters_of spans)
        \<and> process_page page_idx page ls =
            Inr (ls @ pagebreak_lines page_idx
                 @ concat (map (emit_row (length (x_clusters_of spans))) g) @ [[]])
        \<and> (\<forall>row\<in>set g.
              length row = length (x_clusters_of spans)
              \<and> emit_row (length (x_clusters_of spans)) row =
                  (if list_all (\<lambda>cell. cell = []) row then []
                   else grid_block (length (x_clusters_of spans)) row)
              \<and> length (grid_block (length (x_clusters_of spans)) row)
                  = length (x_clusters_of spans) + 4
              \<and> (\<forall>col < length (x_clusters_of spans).
                    grid_block (length (x_clusters_of spans)) row ! (3 + col) =
                      (if row ! col = [] then ustr ''  [],''
                       else ustr ''  ['' @ format_cell (row ! col) @ ustr ''],''))))"
proof (intro impI)
  assume a: "mark_underlines (extract_all_spans page) (extract_underlines page) = spans \<and> spans \<noteq> []"
  then obtain g where g: "build_grid spans = Inr g"
    "grid_shape (length (y_clusters_of spans)) (length (x_clusters_of spans)) g"
    using build_grid_shape by blast
  have len: "length g = length (y_clusters_of spans)" using g(2) by (simp add: grid_shape_def)
  have rows: "length row = length (x_clusters_of spans)" if "row \<in> set g" for row
    using g(2) that by (simp add: grid_shape_def list_all_iff)
  have cells: "grid_block n row ! (3 + col) =
        (if row ! col = [] then ustr ''  [],'' else ustr ''  ['' @ format_cell (row ! col) @ ustr ''],'')"
    if "col < length row" for n row col
    using that by (simp add: grid_block_def nth_append cell_line_def)
  have "process_page page_idx page ls =
            Inr (ls @ pagebreak_lines page_idx
                 @ concat (map (emit_row (length (x_clusters_of spans))) g) @ [[]])"
    using a g(1) by (simp add: process_page_rows)
  with g(1) len rows cells show "\<exists>g. build_grid spans = Inr g
        \<and> length g = length (y_clusters_of spans)
        \<and> process_page page_idx page ls =
            Inr (ls @ pagebreak_lines page_idx
                 @ concat (map (emit_row (length (x_clusters_of spans))) g) @ [[]])
        \<and> (\<forall>row\<in>set g.
              length row = length (x_clusters_of spans)
              \<and> emit_row (length (x_clusters_of spans)) row =
                  (if list_all (\<lambda>cell. cell = []) row then []
                   else grid_block (length (x_clusters_of spans)) row)
              \<and> length (grid_block (length (x_clusters_of spans)) row)
                  = length (x_clusters_of spans) + 4
              \<and> (\<forall>col < length (x_clusters_of spans).
                    grid_block (length (x_clusters_of spans)) row ! (3 + col) =
                      (if row ! col = [] then ustr ''  [],''
                       else ustr ''  ['' @ format_cell (row ! col) @ ustr ''],'')))"
    by (intro exI [of _ g]) (simp add: emit_row_char grid_block_def)
qed

lemma table_x: "x_clusters_of table_spans = [0, 50, 100]"
  by (simp add: x_clusters_of_def table_spans_def plain_def cluster_positions_def build_clusters_chain)

lemma table_y: "y_clusters_of table_spans = [0, 20]"
  by (simp add: y_clusters_of_def table_spans_def plain_def cluster_positions_def build_clusters_chain)

lemma table_grid: "build_grid table_spans =
   Inr [[[plain (ustr ''A'') 0 0], [plain (ustr ''C'') 50 0], []],
        [[plain (ustr ''B'') 0 20], [], [plain (ustr ''D'') 100 20]]]"
  apply (simp add: build_grid_def empty_grid_def table_x table_y)
  apply (simp add: table_spans_def plain_def assign_to_cluster_def grid_append_def numeral_3_eq_3)
  done

lemma str_nat_3: "str_nat (Suc (Suc (Suc 0))) = ustr ''3''"
  by (simp add: str_nat_def digits_acc.simps ustr_def)

lemma table_lines:
  "concat (map (emit_row (length (x_clusters_of table_spans)))
     [[[plain (ustr ''A'') 0 0], [plain (ustr ''C'') 50 0], []],
      [[plain (ustr ''B'') 0 20], [], [plain (ustr ''D'') 100 20]]]) =
   [ustr ''#grid('', ustr ''  columns: 3,'', ustr ''  gutter: 1em,'',
    ustr ''  [A],'', ustr ''  [C],'', ustr ''  [],'', ustr '')'',
    ustr ''#grid('', ustr ''  columns: 3,'', ustr ''  gutter: 1em,'',
    ustr ''  [B],'', ustr ''  [],'', ustr ''  [D],'', ustr '')'']"
  by (simp add: table_x emit_row_def cell_line_def str_nat_3 cell_eval)


lemma table_page_spans:
  "mark_underlines (extract_all_spans table_page) (extract_underlines table_page) = table_spans"
  by (simp add: mark_underlines_def extract_all_spans_def extract_underlines_def table_page_def
        table_spans_def plain_def span_of_raw_def isspace_def is_space_def ustr_def)

lemma grid_block_cells:
  "length (grid_block ncols row) = length row + 4
   \<and> (\<forall>col < length row.
         grid_block ncols row ! (3 + col) =
           (if row ! col = [] then ustr ''  [],''
            else ustr ''  ['' @ format_cell (row ! col) @ ustr ''],''))"
  by (simp add: grid_block_def nth_append cell_line_def)

text \<open>
  Claim C8. For a page with at least one span, building the grid succeeds, and the page
  appends, after the page-break lines, one block per row in row order and a blank line. A
  row all of whose cells are empty appends nothing, whatever the row and the column
  count: the row loop omits it. Every other row appends a grid block: three opening
  lines, then for every column of the row, in column order, the line of the formatted
  cell or the empty placeholder \<open>[]\<close>, then the closing line. Every row of a page has
  exactly as many cells as the page has x-clusters, so all blocks of a page have the same
  column count. A row of three empty cells appends no line. Spans at x in {0, 0, 50, 100}
  and y in {0, 20} give 3 columns and two rows of 3 cells each, the unpopulated cells
  written as \<open>[]\<close>.
\<close>

theorem page_rows_share_columns:
  "(mark_underlines (extract_all_spans page) (extract_underlines page) = spans \<and> spans \<noteq> [] \<longrightarrow>
     (\<exists>g. build_grid spans = Inr g
        \<and> length g = length (y_clusters_of spans)
        \<and> process_page page_idx page ls =
            Inr (ls @ pagebreak_lines page_idx
                 @ concat (map (emit_row (length (x_clusters_of spans))) g) @ [[]])
        \<and> (\<forall>row\<in>set g.
              length row = length (x_clusters_of spans)
              \<and> emit_row (length (x_clusters_of spans)) row =
                  (if list_all (\<lambda>cell. cell = []) row then []
                   else grid_block (length (x_clusters_of spans)) row)
              \<and> length (grid_block (length (x_clusters_of spans)) row)
                  = length (x_clusters_of spans) + 4
              \<and> (\<forall>col < length (x_clusters_of spans).
                    grid_block (length (x_clusters_of spans)) row ! (3 + col) =
                      (if row ! col = [] then ustr ''  [],''
                       else ustr ''  ['' @ format_cell (row ! col) @ ustr ''],'')))))
   \<and> (list_all (\<lambda>cell. cell = []) any_row \<longrightarrow> emit_row ncols any_row = [])
   \<and> (\<not> list_all (\<lambda>cell. cell = []) any_row \<longrightarrow>
        emit_row ncols any_row = grid_block ncols any_row
        \<and> emit_row ncols any_row \<noteq> []
        \<and> length (grid_block ncols any_row) = length any_row + 4
        \<and> (\<forall>col < length any_row.
              grid_block ncols any_row ! (3 + col) =
                (if any_row ! col = [] then ustr ''  [],''
                 else ustr ''  ['' @ format_cell (any_row ! col) @ ustr ''],'')))
   \<and> emit_row 3 [[], [], []] = []
   \<and> x_clusters_of table_spans = [0, 50, 100]
   \<and> y_clusters_of table_spans = [0, 20]
   \<and> build_grid table_spans =
       Inr [[[plain (ustr ''A'') 0 0], [plain (ustr ''C'') 50 0], []],
            [[plain (ustr ''B'') 0 20], [], [plain (ustr ''D'') 100 20]]]
   \<and> concat (map (emit_row (length (x_clusters_of table_spans)))
        [[[plain (ustr ''A'') 0 0], [plain (ustr ''C'') 50 0], []],
         [[plain (ustr ''B'') 0 20], [], [plain (ustr ''D'') 100 20]]]) =
       [ustr ''#grid('', ustr ''  columns: 3,'', ustr ''  gutter: 1em,'',
        ustr ''  [A],'', ustr ''  [C],'', ustr ''  [],'', ustr '')'',
        ustr ''#grid('', ustr ''  columns: 3,'', ustr ''  gutter: 1em,'',
        ustr ''  [B],'', ustr ''  [],'', ustr ''  [D],'', ustr '')'']"
proof (intro conjI)
  show "mark_underlines (extract_all_spans page) (extract_underlines page) = spans \<and> spans \<noteq> [] \<longrightarrow>
     (\<exists>g. build_grid spans = Inr g
        \<and> length g = length (y_clusters_of spans)
        \<and> process_page page_idx page ls =
            Inr (ls @ pagebreak_lines page_idx
                 @ concat (map (emit_row (length (x_clusters_of spans))) g) @ [[]])
        \<and> (\<forall>row\<in>set g.
              length row = length (x_clusters_of spans)
              \<and> emit_row (length (x_clusters_of spans)) row =
                  (if list_all (\<lambda>cell. cell = []) row then []
                   else grid_block (length (x_clusters_of spans)) row)
              \<and> length (grid_block (length (x_clusters_of spans)) row)
                  = length (x_clusters_of spans) + 4
              \<and> (\<forall>col < length (x_clusters_of spans).
                    grid_block (length (x_clusters_of spans)) row ! (3 + col) =
                      (if row ! col = [] then ustr ''  [],''
                       else ustr ''  ['' @ format_cell (row ! col) @ ustr ''],''))))"
    by (rule page_rows_general)
  show "list_all (\<lambda>cell. cell = []) any_row \<longrightarrow> emit_row ncols any_row = []"
    by (simp add: emit_row_char)
  show "\<not> list_all (\<lambda>cell. cell = []) any_row \<longrightarrow>
        emit_row ncols any_row = grid_block ncols any_row
        \<and> emit_row ncols any_row \<noteq> []
        \<and> length (grid_block ncols any_row) = length any_row + 4
        \<and> (\<forall>col < length any_row.
              grid_block ncols any_row ! (3 + col) =
                (if any_row ! col = [] then ustr ''  [],''
                 else ustr ''  ['' @ format_cell (any_row ! col) @ ustr ''],''))"
    using grid_block_cells [of ncols any_row]
    by (simp add: emit_row_char) (simp add: grid_block_def)
  show "emit_row 3 [[], [], []] = []"
    by (simp add: emit_row_def)
  show "x_clusters_of table_spans = [0, 50, 100]" by (rule table_x)
  show "y_clusters_of table_spans = [0, 20]" by (rule table_y)
  show "build_grid table_spans =
       Inr [[[plain (ustr ''A'') 0 0], [plain (ustr ''C'') 50 0], []],
            [[plain (ustr ''B'') 0 20], [], [plain (ustr ''D'') 100 20]]]"
    by (rule table_grid)
  show "concat (map (emit_row (length (x_clusters_of table_spans)))
        [[[plain (ustr ''A'') 0 0], [plain (ustr ''C'') 50 0], []],
         [[plain (ustr ''B'') 0 20], [], [plain (ustr ''D'') 100 20]]]) =
       [ustr ''#grid('', ustr ''  columns: 3,'', ustr ''  gutter: 1em,'',
        ustr ''  [A],'', ustr ''  [C],'', ustr ''  [],'', ustr '')'',
        ustr ''#grid('', ustr ''  columns: 3,'', ustr ''  gutter: 1em,'',
        ustr ''  [B],'', ustr ''  [],'', ustr ''  [D],'', ustr '')'']"
    by (rule table_lines)
qed

theorem page_rows_share_columns_witness:
  "process_page 0 table_page [] =
     Inr [ustr ''#grid('', ustr ''  columns: 3,'', ustr ''  gutter: 1em,'',
          ustr ''  [A],'', ustr ''  [C],'', ustr ''  [],'', ustr '')'',
          ustr ''#grid('', ustr ''  columns: 3,'', ustr ''  gutter: 1em,'',
          ustr ''  [B],'', ustr ''  [],'', ustr ''  [D],'', ustr '')'', []]
   \<and> list_all (\<lambda>cell. cell = []) [[], [], [] :: Span list]
   \<and> emit_row 3 [[], [], []] = []
   \<and> \<not> list_all (\<lambda>cell. cell = []) [[], [plain (ustr ''D'') 100 20], []]
   \<and> emit_row 3 [[], [plain (ustr ''D'') 100 20], []] =
       [ustr ''#grid('', ustr ''  columns: 3,'', ustr ''  gutter: 1em,'',
        ustr ''  [],'', ustr ''  [D],'', ustr ''  [],'', ustr '')'']"
proof (intro conjI)
  have ne: "table_spans \<noteq> []" by (simp add: table_spans_def)
  note general = page_rows_share_columns [where page = table_page and spans = table_spans
                       and page_idx = 0 and ls = "[]",
                     THEN conjunct1, THEN mp, OF conjI [OF table_page_spans ne]]
  then obtain g where g: "build_grid table_spans = Inr g"
    and out: "process_page 0 table_page [] =
       Inr ([] @ pagebreak_lines 0
            @ concat (map (emit_row (length (x_clusters_of table_spans))) g) @ [[]])"
    by blast
  from g have "g = [[[plain (ustr ''A'') 0 0], [plain (ustr ''C'') 50 0], []],
            [[plain (ustr ''B'') 0 20], [], [plain (ustr ''D'') 100 20]]]"
    by (simp add: table_grid)
  with out show "process_page 0 table_page [] =
     Inr [ustr ''#grid('', ustr ''  columns: 3,'', ustr ''  gutter: 1em,'',
          ustr ''  [A],'', ustr ''  [C],'', ustr ''  [],'', ustr '')'',
          ustr ''#grid('', ustr ''  columns: 3,'', ustr ''  gutter: 1em,'',
          ustr ''  [B],'', ustr ''  [],'', ustr ''  [D],'', ustr '')'', []]"
    by (simp only: table_lines) (simp add: pagebreak_lines_def)
  show empty: "list_all (\<lambda>cell. cell = []) [[], [], [] :: Span list]" by simp
  show "emit_row 3 [[], [], []] = []"
    using page_rows_share_columns [where any_row = "[[], [], []]" and ncols = 3,
            THEN conjunct2, THEN conjunct1, THEN mp, OF empty] .
  show filled: "\<not> list_all (\<lambda>cell. cell = []) [[], [plain (ustr ''D'') 100 20], []]" by simp
  have "emit_row 3 [[], [plain (ustr ''D'') 100 20], []]
          = grid_block 3 [[], [plain (ustr ''D'') 100 20], []]"
    using page_rows_share_columns [where any_row = "[[], [plain (ustr ''D'') 100 20], []]"
            and ncols = 3, THEN conjunct2, THEN conjunct2, THEN conjunct1, THEN mp, OF filled]
    by (rule conjunct1)
  also have "\<dots> = [ustr ''#grid('', ustr ''  columns: 3,'', ustr ''  gutter: 1em,'',
        ustr ''  [],'', ustr ''  [D],'', ustr ''  [],'', ustr '')'']"
    by (simp add: grid_block_def cell_line_def str_nat_3 [unfolded numeral_3_eq_3 [symmetric]]
          cell_eval)
  finally show "emit_row 3 [[], [plain (ustr ''D'') 100 20], []] =
       [ustr ''#grid('', ustr ''  columns: 3,'', ustr ''  gutter: 1em,'',
        ustr ''  [],'', ustr ''  [D],'', ustr ''  [],'', ustr '')'']" .
qed

end
